theory Spec2Isabelle
  imports Main
begin

section \<open>Strings, integers and the exceptions of the Python runtime\<close>

text \<open>
  The program \<^verbatim>\<open>osx_cal_add_event.py\<close> turns command-line strings into a start and an
  end \<^verbatim>\<open>datetime\<close> and hands them to the calendar store. Its own code is short; it leans
  on \<^verbatim>\<open>str.strip\<close>, \<^verbatim>\<open>str.split\<close>, \<^verbatim>\<open>int\<close>, \<^verbatim>\<open>datetime.strptime\<close> and \<^verbatim>\<open>timedelta\<close>, which
  are modelled here as far as the program uses them.

  A Python string is a sequence of code points; a \<^typ>\<open>string\<close> here is the same sequence
  for code points below 256 (one \<^typ>\<open>char\<close> per code point). Strings with larger code
  points are outside the model.

  The exceptions the program can meet. \<^verbatim>\<open>ValueError\<close> is the only one that the
  \<^verbatim>\<open>try\<close> blocks of the main program catch.
\<close>

datatype py_error = ValueError | IndexError | OverflowError

text \<open>\<^verbatim>\<open>str.isspace\<close> on one code point below 256; \<^verbatim>\<open>str.strip()\<close> removes these.\<close>

definition isspace :: "char \<Rightarrow> bool" where
  "isspace c = (c \<in> set [CHR 0x09, CHR 0x0A, CHR 0x0B, CHR 0x0C, CHR 0x0D,
                           CHR 0x1C, CHR 0x1D, CHR 0x1E, CHR 0x1F, CHR 0x20,
                           CHR 0x85, CHR 0xA0])"

definition strip :: "string \<Rightarrow> string" where
  "strip s = rev (dropWhile isspace (rev (dropWhile isspace s)))"

definition isdigit :: "char \<Rightarrow> bool" where
  "isdigit c = (c \<in> set ''0123456789'')"

definition digit_value :: "char \<Rightarrow> nat" where
  "digit_value c = of_char c - 48"

text \<open>
  \<^verbatim>\<open>int(s)\<close> for a string in base 10: white space around the literal is skipped (the
  separators \<^verbatim>\<open>0x1C\<close> to \<^verbatim>\<open>0x1F\<close> are not white space for \<^verbatim>\<open>int\<close>), then an optional
  sign, then digits, where one underscore may stand between two digits. \<open>None\<close> is
  \<^verbatim>\<open>ValueError\<close>. The interpreter's configurable cap on the number of digits is not
  modelled.
\<close>

definition int_isspace :: "char \<Rightarrow> bool" where
  "int_isspace c = (c \<in> set [CHR 0x09, CHR 0x0A, CHR 0x0B, CHR 0x0C, CHR 0x0D, CHR 0x20,
                               CHR 0x85, CHR 0xA0])"

fun int_digits :: "nat \<Rightarrow> string \<Rightarrow> nat option" where
  "int_digits acc [] = Some acc"
| "int_digits acc [c] = (if isdigit c then Some (10 * acc + digit_value c) else None)"
| "int_digits acc (c # d # cs) =
     (if isdigit c then int_digits (10 * acc + digit_value c) (d # cs)
      else if c = CHR ''_'' \<and> isdigit d then int_digits (10 * acc + digit_value d) cs
      else None)"

definition int_literal :: "string \<Rightarrow> nat option" where
  "int_literal s =
     (case s of [] \<Rightarrow> None
      | c # cs \<Rightarrow> if isdigit c then int_digits (digit_value c) cs else None)"

definition py_int :: "string \<Rightarrow> int option" where
  "py_int s =
     (let t = rev (dropWhile int_isspace (rev (dropWhile int_isspace s))) in
      case t of
        [] \<Rightarrow> None
      | c # cs \<Rightarrow>
          if c = CHR ''-'' then map_option (\<lambda>n. - int n) (int_literal cs)
          else if c = CHR ''+'' then map_option int (int_literal cs)
          else map_option int (int_literal t))"

text \<open>\<^verbatim>\<open>s.split(sep)\<close> for a separator of one character: every occurrence splits.\<close>

fun split_on :: "char \<Rightarrow> string \<Rightarrow> string list" where
  "split_on sep [] = [[]]"
| "split_on sep (c # cs) =
     (if c = sep then [] # split_on sep cs
      else (case split_on sep cs of [] \<Rightarrow> [[c]] | p # ps \<Rightarrow> (c # p) # ps))"

section \<open>Durations\<close>

text \<open>
  A \<^verbatim>\<open>timedelta\<close> is kept normalised by Python as days, seconds (0 to 86399) and
  microseconds; the program builds it from whole hours and minutes only, so the
  microseconds are always 0 and left out. The constructor raises \<^verbatim>\<open>OverflowError\<close> when
  the number of days has a magnitude above 999999999.
\<close>

record timedelta =
  days :: int
  seconds :: int

definition new_timedelta :: "int \<Rightarrow> int \<Rightarrow> py_error + timedelta" where
  "new_timedelta hours minutes =
     (let s = hours * 3600 + minutes * 60; d = s div 86400 in
      if \<bar>d\<bar> > 999999999 then Inl OverflowError
      else Inr \<lparr>days = d, seconds = s mod 86400\<rparr>)"

text \<open>
  \<^verbatim>\<open>parse_duration\<close>, lines 32 to 45. On the empty string (after stripping) the test
  \<^verbatim>\<open>duration_str[-1] == 'm'\<close> raises \<^verbatim>\<open>IndexError\<close>; unpacking a split that has not exactly
  two parts raises \<^verbatim>\<open>ValueError\<close>, as a failing \<^verbatim>\<open>int\<close> does.
\<close>

definition parse_duration :: "string \<Rightarrow> py_error + timedelta" where
  "parse_duration duration_str0 =
     (let duration_str = strip duration_str0 in
      if CHR '':'' \<in> set duration_str then
        (case split_on CHR '':'' duration_str of
           [hours, minutes] \<Rightarrow>
             (case py_int hours of
                None \<Rightarrow> Inl ValueError
              | Some h \<Rightarrow>
                  (case py_int minutes of
                     None \<Rightarrow> Inl ValueError
                   | Some m \<Rightarrow> new_timedelta h m))
         | _ \<Rightarrow> Inl ValueError)
      else if duration_str = [] then Inl IndexError
      else if last duration_str = CHR ''m'' then
        (case py_int (butlast duration_str) of
           None \<Rightarrow> Inl ValueError
         | Some m \<Rightarrow> new_timedelta 0 m)
      else if last duration_str = CHR ''h'' then
        (case py_int (butlast duration_str) of
           None \<Rightarrow> Inl ValueError
         | Some h \<Rightarrow> new_timedelta h 0)
      else Inl ValueError)"

section \<open>Dates and times\<close>

text \<open>
  A naive \<^verbatim>\<open>datetime\<close>. The program only builds values whose microsecond is 0, so that
  field is left out. The values carry no time zone: they are read as local time when the
  event is handed to the calendar store.
\<close>

record datetime =
  year :: int
  month :: int
  day :: int
  hour :: int
  minute :: int
  second :: int

definition is_leap :: "int \<Rightarrow> bool" where
  "is_leap y = (y mod 4 = 0 \<and> (y mod 100 \<noteq> 0 \<or> y mod 400 = 0))"

definition DAYS_IN_MONTH :: "int list" where
  "DAYS_IN_MONTH = [- 1, 31, 28, 31, 30, 31, 30, 31, 31, 30, 31, 30, 31]"

definition DAYS_BEFORE_MONTH :: "int list" where
  "DAYS_BEFORE_MONTH = [- 1, 0, 31, 59, 90, 120, 151, 181, 212, 243, 273, 304, 334]"

definition days_in_month :: "int \<Rightarrow> int \<Rightarrow> int" where
  "days_in_month y m =
     (if m = 2 \<and> is_leap y then 29 else DAYS_IN_MONTH ! nat m)"

definition days_before_month :: "int \<Rightarrow> int \<Rightarrow> int" where
  "days_before_month y m =
     DAYS_BEFORE_MONTH ! nat m + (if m > 2 \<and> is_leap y then 1 else 0)"

definition days_before_year :: "int \<Rightarrow> int" where
  "days_before_year y = (y - 1) * 365 + (y - 1) div 4 - (y - 1) div 100 + (y - 1) div 400"

text \<open>\<^verbatim>\<open>date.toordinal\<close>: day 1 is 0001-01-01.\<close>

definition ymd2ord :: "int \<Rightarrow> int \<Rightarrow> int \<Rightarrow> int" where
  "ymd2ord y m d = days_before_year y + days_before_month y m + d"

text \<open>\<^verbatim>\<open>date.fromordinal\<close>, as the standard library computes it from 400, 100, 4 and
  1 year cycles.\<close>

definition ord2ymd :: "int \<Rightarrow> int \<times> int \<times> int" where
  "ord2ymd n0 =
     (let n = n0 - 1;
          n400 = n div 146097; n = n mod 146097;
          n100 = n div 36524; n = n mod 36524;
          n4 = n div 1461; n = n mod 1461;
          n1 = n div 365; n = n mod 365;
          y = n400 * 400 + 1 + n100 * 100 + n4 * 4 + n1
      in if n1 = 4 \<or> n100 = 4 then (y - 1, 12, 31)
         else
           let leapyear = (n1 = 3 \<and> (n4 \<noteq> 24 \<or> n100 = 3));
               m = (n + 50) div 32;
               preceding = DAYS_BEFORE_MONTH ! nat m + (if m > 2 \<and> leapyear then 1 else 0)
           in if preceding > n
              then
                let m = m - 1;
                    preceding =
                      preceding - (DAYS_IN_MONTH ! nat m + (if m = 2 \<and> leapyear then 1 else 0))
                in (y, m, n - preceding + 1)
              else (y, m, n - preceding + 1))"

text \<open>
  \<^verbatim>\<open>datetime + timedelta\<close>: the sum is taken on the ordinal of the date and the seconds of
  the day; a result before year 1 or after year 9999 raises \<^verbatim>\<open>OverflowError\<close>.
\<close>

definition datetime_add :: "datetime \<Rightarrow> timedelta \<Rightarrow> py_error + datetime" where
  "datetime_add dt td =
     (let s = hour dt * 3600 + minute dt * 60 + second dt + seconds td;
          d = ymd2ord (year dt) (month dt) (day dt) + days td + s div 86400;
          s = s mod 86400
      in if 0 < d \<and> d \<le> 3652059 then
           (case ord2ymd d of
              (y, m, dd) \<Rightarrow>
                Inr \<lparr>year = y, month = m, day = dd,
                     hour = s div 3600, minute = s mod 3600 div 60, second = s mod 60\<rparr>)
         else Inl OverflowError)"

text \<open>\<^verbatim>\<open>a < b\<close> on naive values compares the fields from the year down.\<close>

definition datetime_less :: "datetime \<Rightarrow> datetime \<Rightarrow> bool" where
  "datetime_less a b =
     (year a < year b \<or> (year a = year b \<and>
     (month a < month b \<or> (month a = month b \<and>
     (day a < day b \<or> (day a = day b \<and>
     (hour a < hour b \<or> (hour a = hour b \<and>
     (minute a < minute b \<or> (minute a = minute b \<and> second a < second b))))))))))"

section \<open>\<^verbatim>\<open>datetime.strptime\<close>\<close>

text \<open>
  The standard library turns the format into a regular expression, matches it at the
  start of the data (with back-tracking, letters compared without case) and refuses data
  that the match does not use up. In a format, \<^verbatim>\<open>%\<close> and the next character are a
  directive, a run of white space matches one or more white-space characters, and any
  other character matches itself. Of the directives, the five that the program's formats
  use are modelled; any other matches nothing. A format that ends in a lone \<^verbatim>\<open>%\<close> is not
  among the program's formats and is not treated.
\<close>

datatype re_item = Directive char | Whitespace | Literal char

fun compile_format :: "string \<Rightarrow> re_item list" where
  "compile_format [] = []"
| "compile_format [c] = (if isspace c then [Whitespace] else [Literal c])"
| "compile_format (c # d # cs) =
     (if c = CHR ''%'' then Directive d # compile_format cs
      else if isspace c then
        (case compile_format (d # cs) of
           Whitespace # r \<Rightarrow> Whitespace # r
         | r \<Rightarrow> Whitespace # r)
      else Literal c # compile_format (d # cs))"

text \<open>One alternative of a directive: a sequence of character classes, each a string of
  the characters it admits. The result is the text matched and the rest.\<close>

fun alt_match :: "string list \<Rightarrow> string \<Rightarrow> (string \<times> string) option" where
  "alt_match [] s = Some ([], s)"
| "alt_match (cl # cls) [] = None"
| "alt_match (cl # cls) (c # cs) =
     (if c \<in> set cl then map_option (\<lambda>(g, r). (c # g, r)) (alt_match cls cs) else None)"

text \<open>
  The alternatives of each directive, in the order the regular expression tries them:
  \<^verbatim>\<open>%Y\<close> is \<^verbatim>\<open>\d\d\d\d\<close>, \<^verbatim>\<open>%m\<close> is \<^verbatim>\<open>1[0-2]|0[1-9]|[1-9]\<close>,
  \<^verbatim>\<open>%d\<close> is \<^verbatim>\<open>3[0-1]|[1-2]\d|0[1-9]|[1-9]| [1-9]\<close>, \<^verbatim>\<open>%H\<close> is \<^verbatim>\<open>2[0-3]|[0-1]\d|\d\<close> and
  \<^verbatim>\<open>%M\<close> is \<^verbatim>\<open>[0-5]\d|\d\<close>.
\<close>

definition directive_alts :: "char \<Rightarrow> string list list" where
  "directive_alts c =
     (if c = CHR ''Y'' then [[''0123456789'', ''0123456789'', ''0123456789'', ''0123456789'']]
      else if c = CHR ''m'' then [[''1'', ''012''], [''0'', ''123456789''], [''123456789'']]
      else if c = CHR ''d'' then
        [[''3'', ''01''], [''12'', ''0123456789''], [''0'', ''123456789''], [''123456789''],
         ['' '', ''123456789'']]
      else if c = CHR ''H'' then [[''2'', ''0123''], [''01'', ''0123456789''], [''0123456789'']]
      else if c = CHR ''M'' then [[''012345'', ''0123456789''], [''0123456789'']]
      else [])"

definition directive :: "char \<Rightarrow> string \<Rightarrow> (string \<times> string) list" where
  "directive c s = List.map_filter (\<lambda>alt. alt_match alt s) (directive_alts c)"

text \<open>Letters of a format match without regard to case (only the ASCII letters are
  folded here; the program's formats hold no other letter).\<close>

definition ascii_lower :: "char \<Rightarrow> char" where
  "ascii_lower c =
     (case map_of (zip ''ABCDEFGHIJKLMNOPQRSTUVWXYZ'' ''abcdefghijklmnopqrstuvwxyz'') c of
        None \<Rightarrow> c
      | Some l \<Rightarrow> l)"

text \<open>All matches of the items at the start of the string, best first: the groups
  captured (by directive) and the rest of the string.\<close>

fun re_match :: "re_item list \<Rightarrow> string \<Rightarrow> ((char \<times> string) list \<times> string) list" where
  "re_match [] s = [([], s)]"
| "re_match (Literal c # items) s =
     (case s of
        [] \<Rightarrow> []
      | x # xs \<Rightarrow> if ascii_lower x = ascii_lower c then re_match items xs else [])"
| "re_match (Whitespace # items) s =
     concat (map (\<lambda>k. re_match items (drop k s))
                 (rev [1 ..< Suc (length (takeWhile isspace s))]))"
| "re_match (Directive d # items) s =
     concat (map (\<lambda>(g, r). map (\<lambda>(gs, r'). ((d, g) # gs, r')) (re_match items r))
                 (directive d s))"

text \<open>A captured group as a number; a directive absent from the format has a default.\<close>

definition group_int :: "(char \<times> string) list \<Rightarrow> char \<Rightarrow> int \<Rightarrow> int option" where
  "group_int groups d dflt = (case map_of groups d of None \<Rightarrow> Some dflt | Some g \<Rightarrow> py_int g)"

definition strptime :: "string \<Rightarrow> string \<Rightarrow> py_error + datetime" where
  "strptime data_string format =
     (case re_match (compile_format format) data_string of
        [] \<Rightarrow> Inl ValueError
      | (groups, rest) # _ \<Rightarrow>
          if rest \<noteq> [] then Inl ValueError
          else
            (case (group_int groups CHR ''Y'' 1900, group_int groups CHR ''m'' 1,
                   group_int groups CHR ''d'' 1, group_int groups CHR ''H'' 0,
                   group_int groups CHR ''M'' 0) of
               (Some y, Some m, Some d, Some h, Some mi) \<Rightarrow>
                 if 1 \<le> y \<and> y \<le> 9999 \<and> 1 \<le> m \<and> m \<le> 12 \<and> 1 \<le> d \<and> d \<le> days_in_month y m
                 then Inr \<lparr>year = y, month = m, day = d, hour = h, minute = mi, second = 0\<rparr>
                 else Inl ValueError
             | _ \<Rightarrow> Inl ValueError))"

text \<open>\<^verbatim>\<open>parse_date\<close>, lines 17 to 29.\<close>

definition parse_date :: "string \<Rightarrow> py_error + (datetime \<times> bool)" where
  "parse_date date_str0 =
     (let date_str = strip date_str0;
          time_included = (CHR ''T'' \<in> set date_str \<or> CHR '' '' \<in> set date_str);
          parse_format =
            (if time_included then
               (if CHR ''T'' \<in> set date_str then ''%Y-%m-%dT%H:%M'' else ''%Y-%m-%d %H:%M'')
             else ''%Y-%m-%d'')
      in case strptime date_str parse_format of
           Inl e \<Rightarrow> Inl e
         | Inr dt \<Rightarrow> Inr (dt, time_included))"

section \<open>The main program\<close>

text \<open>
  The calendar store is seen through the list of its calendars; \<^verbatim>\<open>resolve_calendar_by_name\<close>
  (lines 48 to 53) returns the first whose title is the name.
\<close>

record ek_calendar =
  cal_title :: string
  cal_type :: int

definition resolve_calendar_by_name :: "ek_calendar list \<Rightarrow> string \<Rightarrow> ek_calendar option" where
  "resolve_calendar_by_name store calendar_name = find (\<lambda>cal. cal_title cal = calendar_name) store"

text \<open>The parsed command line: the options \<^verbatim>\<open>-e\<close>, \<^verbatim>\<open>-d\<close>, \<^verbatim>\<open>-c\<close> (the first two are empty
  when absent) and the two positional arguments.\<close>

record args =
  end_date :: string
  duration :: string
  calendar :: string
  date :: string
  title :: string

text \<open>
  A run ends in one of three ways: \<^verbatim>\<open>exit(1)\<close> after a diagnostic, an exception that no
  handler catches, or the call of \<^verbatim>\<open>create_event\<close> with the calendar, the all-day flag,
  start, end and title. The diagnostics, by the lines that print them: calendar not found
  (109), start date not parsed (119), end date not parsed (129), duration not parsed
  (137), start with a time but end without (148), end before start (153).
\<close>

datatype exit_reason =
  CalendarNotFound | InvalidDateFormat | InvalidEndDateFormat | InvalidDurationFormat
  | InconsistentTimeSpecification | EndBeforeStart

datatype outcome =
  Exit exit_reason
  | Uncaught py_error
  | Create_event ek_calendar bool datetime datetime string

text \<open>Lines 124 to 145: the end of the event and whether it has a time of day. A string
  option counts as supplied when it is not empty.\<close>

definition resolve_end :: "args \<Rightarrow> datetime \<Rightarrow> bool \<Rightarrow> outcome + (datetime \<times> bool)" where
  "resolve_end a start was_time_included =
     (if end_date a \<noteq> [] then
        (case parse_date (end_date a) of
           Inl e \<Rightarrow> Inl (if e = ValueError then Exit InvalidEndDateFormat else Uncaught e)
         | Inr (end_dt, end_date_time_included) \<Rightarrow> Inr (end_dt, end_date_time_included))
      else if duration a \<noteq> [] \<and> was_time_included then
        (case parse_duration (duration a) of
           Inl e \<Rightarrow> Inl (if e = ValueError then Exit InvalidDurationFormat else Uncaught e)
         | Inr d \<Rightarrow>
             (case datetime_add start d of
                Inl e \<Rightarrow> Inl (Uncaught e)
              | Inr end_dt \<Rightarrow> Inr (end_dt, True)))
      else Inr (start, False))"

text \<open>Lines 107 to 157.\<close>

definition main :: "ek_calendar list \<Rightarrow> args \<Rightarrow> outcome" where
  "main store a =
     (case resolve_calendar_by_name store (calendar a) of
        None \<Rightarrow> Exit CalendarNotFound
      | Some home_cal \<Rightarrow>
          (case parse_date (date a) of
             Inl e \<Rightarrow> (if e = ValueError then Exit InvalidDateFormat else Uncaught e)
           | Inr (start, was_time_included) \<Rightarrow>
               (case resolve_end a start was_time_included of
                  Inl out \<Rightarrow> out
                | Inr (end_dt, end_date_time_included) \<Rightarrow>
                    if was_time_included \<and> \<not> end_date_time_included
                    then Exit InconsistentTimeSpecification
                    else if datetime_less end_dt start then Exit EndBeforeStart
                    else Create_event home_cal (\<not> was_time_included) start end_dt (title a))))"

section \<open>Notions used to state the properties\<close>

text \<open>\<^verbatim>\<open>a <= b\<close> on naive values.\<close>

definition datetime_le :: "datetime \<Rightarrow> datetime \<Rightarrow> bool" where
  "datetime_le a b = (datetime_less a b \<or> a = b)"

text \<open>A span that is not negative: \<^verbatim>\<open>timedelta(0) <= d\<close>, which for a normalised value is a
  number of days that is not negative.\<close>

definition non_negative :: "timedelta \<Rightarrow> bool" where
  "non_negative d = (0 \<le> days d)"

text \<open>The data matches the pattern of a format: the first match exists and uses up the
  whole string.\<close>

definition matches_format :: "string \<Rightarrow> string \<Rightarrow> bool" where
  "matches_format format data_string =
     (case re_match (compile_format format) data_string of
        [] \<Rightarrow> False
      | (groups, rest) # _ \<Rightarrow> rest = [])"

text \<open>The string \<^verbatim>\<open>YYYY-MM-DD\<close> of a date, with leading zeros.\<close>

definition digit_char :: "nat \<Rightarrow> char" where
  "digit_char k = ''0123456789'' ! k"

definition iso_date :: "nat \<Rightarrow> nat \<Rightarrow> nat \<Rightarrow> string" where
  "iso_date y m d =
     [digit_char (y div 1000), digit_char (y div 100 mod 10), digit_char (y div 10 mod 10),
      digit_char (y mod 10), CHR ''-'', digit_char (m div 10), digit_char (m mod 10),
      CHR ''-'', digit_char (d div 10), digit_char (d mod 10)]"

text \<open>The store and the dates of the examples.\<close>

definition home_store :: "ek_calendar list" where
  "home_store = [\<lparr>cal_title = ''Work'', cal_type = 1\<rparr>, \<lparr>cal_title = ''Home'', cal_type = 0\<rparr>]"

definition june :: "int \<Rightarrow> int \<Rightarrow> int \<Rightarrow> datetime" where
  "june d h mi = \<lparr>year = 2024, month = 6, day = d, hour = h, minute = mi, second = 0\<rparr>"

definition cli :: "string \<Rightarrow> string \<Rightarrow> string \<Rightarrow> args" where
  "cli e d start = \<lparr>end_date = e, duration = d, calendar = ''Home'', date = start, title = ''Dentist''\<rparr>"

section \<open>Evaluation of the examples\<close>

lemmas string_eval = strip_def isspace_def isdigit_def digit_value_def int_isspace_def
  int_literal_def py_int_def

lemmas strptime_eval = strptime_def directive_def directive_alts_def ascii_lower_def
  group_int_def List.map_filter_def days_in_month_def is_leap_def DAYS_IN_MONTH_def

lemmas date_eval = parse_date_def string_eval strptime_eval june_def

lemmas add_eval = datetime_add_def ymd2ord_def days_before_year_def days_before_month_def
  DAYS_BEFORE_MONTH_def DAYS_IN_MONTH_def is_leap_def ord2ymd_def Let_def june_def

lemma parse_date_june_1: "parse_date ''2024-06-01'' = Inr (june 1 0 0, False)"
  by (simp add: date_eval)

lemma parse_date_june_2: "parse_date ''2024-06-02'' = Inr (june 2 0 0, False)"
  by (simp add: date_eval)

lemma parse_date_june_1_T: "parse_date ''2024-06-01T09:00'' = Inr (june 1 9 0, True)"
  by (simp add: date_eval)

lemma parse_date_june_1_sp: "parse_date ''2024-06-01 09:00'' = Inr (june 1 9 0, True)"
  by (simp add: date_eval)

lemma parse_date_june_1_T10: "parse_date ''2024-06-01T10:00'' = Inr (june 1 10 0, True)"
  by (simp add: date_eval)

lemma parse_duration_1h: "parse_duration ''1h'' = Inr \<lparr>days = 0, seconds = 3600\<rparr>"
  by (simp add: parse_duration_def string_eval new_timedelta_def)

lemma june_1_plus_1h:
  "datetime_add (june 1 9 0) \<lparr>days = 0, seconds = 3600\<rparr> = Inr (june 1 10 0)"
  by (simp add: add_eval)

lemma resolve_home: "resolve_calendar_by_name home_store ''Home'' = Some \<lparr>cal_title = ''Home'', cal_type = 0\<rparr>"
  by (simp add: resolve_calendar_by_name_def home_store_def)

lemma cli_simps [simp]:
  "end_date (cli e d start) = e" "duration (cli e d start) = d"
  "calendar (cli e d start) = ''Home''" "date (cli e d start) = start"
  "title (cli e d start) = ''Dentist''"
  by (simp_all add: cli_def)

section \<open>The order of naive values\<close>

lemma datetime_less_irrefl: "\<not> datetime_less d d"
  by (simp add: datetime_less_def)

lemma datetime_not_less_iff: "(\<not> datetime_less b a) = datetime_le a b"
  unfolding datetime_less_def datetime_le_def
  by (cases a; cases b; simp; linarith)

section \<open>The main program, step by step\<close>

lemma resolve_end_Inl:
  "resolve_end a start wti = Inl out \<Longrightarrow>
     out = Exit InvalidEndDateFormat \<or> out = Exit InvalidDurationFormat \<or> (\<exists>e. out = Uncaught e)"
  by (auto simp: resolve_end_def split: if_splits sum.splits prod.splits)

lemma resolve_end_not_Create [simp]:
  "resolve_end a start wti \<noteq> Inl (Create_event c ad s e t)"
  using resolve_end_Inl [of a start wti "Create_event c ad s e t"] by auto

lemma resolve_end_not_Inconsistent [simp]:
  "resolve_end a start wti \<noteq> Inl (Exit InconsistentTimeSpecification)"
  using resolve_end_Inl [of a start wti "Exit InconsistentTimeSpecification"] by auto

lemma resolve_end_not_EndBeforeStart [simp]:
  "resolve_end a start wti \<noteq> Inl (Exit EndBeforeStart)"
  using resolve_end_Inl [of a start wti "Exit EndBeforeStart"] by auto

text \<open>What a run does once the calendar is found, the start parsed and the end resolved.\<close>

lemma main_reached:
  assumes "resolve_calendar_by_name store (calendar a) = Some cal"
    and "parse_date (date a) = Inr (start, wti)"
    and "resolve_end a start wti = Inr (end_dt, eht)"
  shows "main store a =
          (if wti \<and> \<not> eht then Exit InconsistentTimeSpecification
           else if datetime_less end_dt start then Exit EndBeforeStart
           else Create_event cal (\<not> wti) start end_dt (title a))"
  using assms by (simp add: main_def)

text \<open>A run that reaches one of the two checks, or the call, has passed every step before.\<close>

lemma main_late_inv:
  assumes "main store a = out"
    and "out = Exit InconsistentTimeSpecification \<or> out = Exit EndBeforeStart
           \<or> out = Create_event c ad s e t"
  shows "\<exists>cal start wti end_dt eht.
           resolve_calendar_by_name store (calendar a) = Some cal \<and>
           parse_date (date a) = Inr (start, wti) \<and>
           resolve_end a start wti = Inr (end_dt, eht) \<and>
           out = (if wti \<and> \<not> eht then Exit InconsistentTimeSpecification
                  else if datetime_less end_dt start then Exit EndBeforeStart
                  else Create_event cal (\<not> wti) start end_dt (title a))"
proof (cases "resolve_calendar_by_name store (calendar a)")
  case None
  with assms show ?thesis by (auto simp: main_def)
next
  case (Some cal)
  show ?thesis
  proof (cases "parse_date (date a)")
    case (Inl err)
    with Some assms show ?thesis by (auto simp: main_def split: if_splits)
  next
    case (Inr p)
    obtain start wti where p: "p = (start, wti)" by (cases p)
    show ?thesis
    proof (cases "resolve_end a start wti")
      case (Inl out')
      with Some Inr p assms show ?thesis by (auto simp: main_def)
    next
      case (Inr q)
      obtain end_dt eht where q: "q = (end_dt, eht)" by (cases q)
      from Some \<open>parse_date (date a) = Inr p\<close> p Inr q assms(1)
      have "out =
          (if wti \<and> \<not> eht then Exit InconsistentTimeSpecification
           else if datetime_less end_dt start then Exit EndBeforeStart
           else Create_event cal (\<not> wti) start end_dt (title a))"
        by (simp add: main_reached)
      with Some \<open>parse_date (date a) = Inr p\<close> p Inr q show ?thesis
        by blast
    qed
  qed
qed

lemma main_Create_inv:
  assumes "main store a = Create_event c ad s e t"
  shows "\<exists>eht. resolve_calendar_by_name store (calendar a) = Some c \<and>
           parse_date (date a) = Inr (s, \<not> ad) \<and>
           resolve_end a s (\<not> ad) = Inr (e, eht) \<and> \<not> (\<not> ad \<and> \<not> eht) \<and>
           \<not> datetime_less e s \<and> t = title a"
  using main_late_inv [OF assms, of c ad s e t] by (auto split: if_splits)

text \<open>The duration option has no effect on a run with an end date, nor on one whose
  start has no time of day.\<close>

lemma resolve_end_duration_irrelevant:
  "end_date a \<noteq> [] \<or> \<not> wti \<Longrightarrow>
     resolve_end (a\<lparr>duration := d'\<rparr>) start wti = resolve_end a start wti"
  by (auto simp: resolve_end_def)

lemma main_duration_irrelevant:
  assumes "end_date a \<noteq> [] \<or> (\<exists>start. parse_date (date a) = Inr (start, False))"
  shows "main store (a\<lparr>duration := d'\<rparr>) = main store a"
proof (cases "parse_date (date a)")
  case (Inl e)
  then show ?thesis by (simp add: main_def split: option.splits)
next
  case (Inr p)
  obtain start wti where p: "p = (start, wti)" by (cases p)
  with Inr assms have "end_date a \<noteq> [] \<or> \<not> wti" by auto
  then have "resolve_end (a\<lparr>duration := d'\<rparr>) start wti = resolve_end a start wti"
    by (rule resolve_end_duration_irrelevant)
  with Inr p show ?thesis
    by (simp add: main_def split: option.splits sum.splits prod.splits)
qed

section \<open>Resolution of the end and validation\<close>

text \<open>
  Claim C1. The end is resolved by strict precedence. When an end-date string is
  supplied, the result is that of \<open>parse_date\<close> on it, whatever the duration option holds.
  Otherwise, when a duration string is supplied and the start had a time of day, the end
  is the start plus the parsed duration, and it has a time of day. Otherwise the end is
  the start, and it has no time of day. In particular, with no end date and a start without
  time of day the duration string is never parsed: the result is the same for every
  duration string. For the whole run: with an end date, or with a start without time of
  day, replacing the duration string by any other changes nothing.
\<close>

theorem end_resolution_precedence:
  "(end_date a \<noteq> [] \<longrightarrow>
      resolve_end a start wti =
        (case parse_date (end_date a) of
           Inl e \<Rightarrow> Inl (if e = ValueError then Exit InvalidEndDateFormat else Uncaught e)
         | Inr r \<Rightarrow> Inr r) \<and>
      main store (a\<lparr>duration := d'\<rparr>) = main store a) \<and>
   (end_date a = [] \<and> duration a \<noteq> [] \<and> wti \<longrightarrow>
      resolve_end a start wti =
        (case parse_duration (duration a) of
           Inl e \<Rightarrow> Inl (if e = ValueError then Exit InvalidDurationFormat else Uncaught e)
         | Inr d \<Rightarrow>
            (case datetime_add start d of
               Inl e \<Rightarrow> Inl (Uncaught e)
             | Inr end_dt \<Rightarrow> Inr (end_dt, True)))) \<and>
   (end_date a = [] \<and> \<not> (duration a \<noteq> [] \<and> wti) \<longrightarrow>
      resolve_end a start wti = Inr (start, False)) \<and>
   (end_date a = [] \<longrightarrow> resolve_end (a\<lparr>duration := d'\<rparr>) start False = Inr (start, False)) \<and>
   (parse_date (date a) = Inr (start, False) \<longrightarrow>
      main store (a\<lparr>duration := d'\<rparr>) = main store a)"
proof (intro conjI impI)
  assume "end_date a \<noteq> []"
  then show "resolve_end a start wti =
        (case parse_date (end_date a) of
           Inl e \<Rightarrow> Inl (if e = ValueError then Exit InvalidEndDateFormat else Uncaught e)
         | Inr r \<Rightarrow> Inr r)"
    by (simp add: resolve_end_def split: sum.splits prod.splits)
next
  assume "end_date a \<noteq> []"
  then show "main store (a\<lparr>duration := d'\<rparr>) = main store a"
    by (simp add: main_duration_irrelevant)
next
  assume "end_date a = [] \<and> duration a \<noteq> [] \<and> wti"
  then show "resolve_end a start wti =
        (case parse_duration (duration a) of
           Inl e \<Rightarrow> Inl (if e = ValueError then Exit InvalidDurationFormat else Uncaught e)
         | Inr d \<Rightarrow>
            (case datetime_add start d of
               Inl e \<Rightarrow> Inl (Uncaught e)
             | Inr end_dt \<Rightarrow> Inr (end_dt, True)))"
    by (simp add: resolve_end_def)
next
  assume "end_date a = [] \<and> \<not> (duration a \<noteq> [] \<and> wti)"
  then show "resolve_end a start wti = Inr (start, False)"
    by (auto simp: resolve_end_def)
next
  assume "end_date a = []"
  then show "resolve_end (a\<lparr>duration := d'\<rparr>) start False = Inr (start, False)"
    by (simp add: resolve_end_def)
next
  assume "parse_date (date a) = Inr (start, False)"
  then show "main store (a\<lparr>duration := d'\<rparr>) = main store a"
    by (auto intro: main_duration_irrelevant)
qed

theorem end_resolution_precedence_witness:
  "resolve_end (cli ''2024-06-02'' ''1h'' ''2024-06-01T09:00'') (june 1 9 0) True
     = Inr (june 2 0 0, False) \<and>
   resolve_end (cli [] ''1h'' ''2024-06-01T09:00'') (june 1 9 0) True
     = Inr (june 1 10 0, True) \<and>
   resolve_end (cli [] [] ''2024-06-01T09:00'') (june 1 9 0) True
     = Inr (june 1 9 0, False) \<and>
   resolve_end ((cli [] [] ''2024-06-01'')\<lparr>duration := ''bogus''\<rparr>) (june 1 0 0) False
     = Inr (june 1 0 0, False) \<and>
   main home_store ((cli [] [] ''2024-06-01'')\<lparr>duration := ''bogus''\<rparr>)
     = Create_event \<lparr>cal_title = ''Home'', cal_type = 0\<rparr> True (june 1 0 0) (june 1 0 0) ''Dentist''"
proof -
  have r: "resolve_end (cli [] [] ''2024-06-01'') (june 1 0 0) False = Inr (june 1 0 0, False)"
    by (simp add: resolve_end_def)
  have m: "main home_store (cli [] [] ''2024-06-01'')
     = Create_event \<lparr>cal_title = ''Home'', cal_type = 0\<rparr> True (june 1 0 0) (june 1 0 0) ''Dentist''"
    by (simp add: main_reached [OF _ _ r] resolve_home parse_date_june_1 datetime_less_irrefl)
  from end_resolution_precedence
          [of "cli ''2024-06-02'' ''1h'' ''2024-06-01T09:00''" "june 1 9 0" True]
        end_resolution_precedence [of "cli [] ''1h'' ''2024-06-01T09:00''" "june 1 9 0" True]
        end_resolution_precedence [of "cli [] [] ''2024-06-01T09:00''" "june 1 9 0" True]
        end_resolution_precedence
          [of "cli [] [] ''2024-06-01''" "june 1 0 0" False home_store "''bogus''"]
        m
  show ?thesis
    by (simp add: parse_date_june_1 parse_date_june_2 parse_duration_1h june_1_plus_1h)
qed

text \<open>
  Claim C2. In a run that finds the calendar, parses the start with a time of day and
  resolves the end, the diagnostic is the one for an inconsistent time specification
  exactly when the resolved end has no time of day. When the start parses without a time
  of day, no run ends with that diagnostic.
\<close>

theorem inconsistent_time_iff:
  "(resolve_calendar_by_name store (calendar a) = Some cal \<and>
    parse_date (date a) = Inr (start, True) \<and>
    resolve_end a start True = Inr (end_dt, eht) \<longrightarrow>
      (main store a = Exit InconsistentTimeSpecification) = (\<not> eht)) \<and>
   (parse_date (date a) = Inr (start', False) \<longrightarrow>
      main store a \<noteq> Exit InconsistentTimeSpecification)"
proof (intro conjI impI)
  assume "resolve_calendar_by_name store (calendar a) = Some cal \<and>
    parse_date (date a) = Inr (start, True) \<and>
    resolve_end a start True = Inr (end_dt, eht)"
  then show "(main store a = Exit InconsistentTimeSpecification) = (\<not> eht)"
    by (simp add: main_reached)
next
  assume p: "parse_date (date a) = Inr (start', False)"
  show "main store a \<noteq> Exit InconsistentTimeSpecification"
  proof
    assume "main store a = Exit InconsistentTimeSpecification"
    from main_late_inv [OF this] p show False by (auto split: if_splits)
  qed
qed

theorem inconsistent_time_iff_witness:
  "main home_store (cli ''2024-06-02'' [] ''2024-06-01T09:00'')
     = Exit InconsistentTimeSpecification \<and>
   main home_store (cli ''2024-06-01T10:00'' [] ''2024-06-01T09:00'')
     \<noteq> Exit InconsistentTimeSpecification \<and>
   main home_store (cli ''2024-06-02'' [] ''2024-06-01'') \<noteq> Exit InconsistentTimeSpecification"
proof -
  have r1: "resolve_end (cli ''2024-06-02'' [] ''2024-06-01T09:00'') (june 1 9 0) True
              = Inr (june 2 0 0, False)"
    by (simp add: resolve_end_def parse_date_june_2)
  have r2: "resolve_end (cli ''2024-06-01T10:00'' [] ''2024-06-01T09:00'') (june 1 9 0) True
              = Inr (june 1 10 0, True)"
    by (simp add: resolve_end_def parse_date_june_1_T10)
  from inconsistent_time_iff
         [of home_store "cli ''2024-06-02'' [] ''2024-06-01T09:00''" _ "june 1 9 0"
             "june 2 0 0" False]
       inconsistent_time_iff
         [of home_store "cli ''2024-06-01T10:00'' [] ''2024-06-01T09:00''" _ "june 1 9 0"
             "june 1 10 0" True]
       inconsistent_time_iff
         [of home_store "cli ''2024-06-02'' [] ''2024-06-01''" _ _ _ _ "june 1 0 0"]
  show ?thesis
    by (simp add: resolve_home parse_date_june_1_T parse_date_june_1 r1 r2)
qed

text \<open>
  Claim C5. When the start string parses with a time of day and neither an end date nor a
  duration is supplied, a run that finds the calendar ends with the diagnostic for an
  inconsistent time specification (a run that does not find it ends there), so no such
  run reaches \<^verbatim>\<open>create_event\<close>.
\<close>

theorem timed_start_alone_rejected:
  assumes "parse_date (date a) = Inr (start, True)" and "end_date a = []" and "duration a = []"
  shows "main store a =
           (case resolve_calendar_by_name store (calendar a) of
              None \<Rightarrow> Exit CalendarNotFound
            | Some cal \<Rightarrow> Exit InconsistentTimeSpecification)
         \<and> main store a \<noteq> Create_event c ad s e t"
  using assms by (auto simp: main_def resolve_end_def split: option.splits)

theorem timed_start_alone_rejected_witness:
  "parse_date ''2024-06-01T09:00'' = Inr (june 1 9 0, True) \<and>
   main home_store (cli [] [] ''2024-06-01T09:00'') = Exit InconsistentTimeSpecification"
  using timed_start_alone_rejected [of "cli [] [] ''2024-06-01T09:00''" "june 1 9 0" home_store]
  by (simp add: parse_date_june_1_T resolve_home)

text \<open>
  Claim C6. In a run that reaches the check (calendar found, start parsed, end resolved,
  times consistent), the diagnostic is the one for an end before the start exactly when
  the end is strictly less than the start, and otherwise \<^verbatim>\<open>create_event\<close> is called. No
  other run ends with that diagnostic. An end equal to the start passes, and every call
  of \<^verbatim>\<open>create_event\<close> has a start that is at most the end.
\<close>

theorem end_before_start_iff:
  "(resolve_calendar_by_name store (calendar a) = Some cal \<and>
    parse_date (date a) = Inr (start, wti) \<and>
    resolve_end a start wti = Inr (end_dt, eht) \<and> \<not> (wti \<and> \<not> eht) \<longrightarrow>
      (main store a = Exit EndBeforeStart) = datetime_less end_dt start \<and>
      (main store a = Create_event cal (\<not> wti) start end_dt (title a))
        = (\<not> datetime_less end_dt start)) \<and>
   (main store a = Exit EndBeforeStart \<longrightarrow>
      (\<exists>start wti end_dt eht. parse_date (date a) = Inr (start, wti) \<and>
         resolve_end a start wti = Inr (end_dt, eht) \<and> datetime_less end_dt start)) \<and>
   (main store a = Create_event c ad s e t \<longrightarrow> datetime_le s e) \<and>
   \<not> datetime_less start start"
proof (intro conjI impI)
  assume h: "resolve_calendar_by_name store (calendar a) = Some cal \<and>
    parse_date (date a) = Inr (start, wti) \<and>
    resolve_end a start wti = Inr (end_dt, eht) \<and> \<not> (wti \<and> \<not> eht)"
  then show "(main store a = Exit EndBeforeStart) = datetime_less end_dt start"
    by (auto simp: main_reached)
  from h show "(main store a = Create_event cal (\<not> wti) start end_dt (title a))
        = (\<not> datetime_less end_dt start)"
    by (auto simp: main_reached)
next
  assume "main store a = Exit EndBeforeStart"
  from main_late_inv [OF this]
  show "\<exists>start wti end_dt eht. parse_date (date a) = Inr (start, wti) \<and>
         resolve_end a start wti = Inr (end_dt, eht) \<and> datetime_less end_dt start"
    by (auto split: if_splits)
next
  assume "main store a = Create_event c ad s e t"
  from main_Create_inv [OF this] have "\<not> datetime_less e s" by blast
  then show "datetime_le s e" by (simp add: datetime_not_less_iff)
next
  show "\<not> datetime_less start start" by (rule datetime_less_irrefl)
qed

theorem end_before_start_iff_witness:
  "main home_store (cli ''2024-06-01'' [] ''2024-06-02'') = Exit EndBeforeStart \<and>
   datetime_less (june 1 0 0) (june 2 0 0) \<and>
   main home_store (cli ''2024-06-01'' [] ''2024-06-01'')
     = Create_event \<lparr>cal_title = ''Home'', cal_type = 0\<rparr> True (june 1 0 0) (june 1 0 0) ''Dentist'' \<and>
   datetime_le (june 1 0 0) (june 1 0 0)"
proof -
  have less: "datetime_less (june 1 0 0) (june 2 0 0)"
    by (simp add: datetime_less_def june_def)
  have r1: "resolve_end (cli ''2024-06-01'' [] ''2024-06-02'') (june 2 0 0) False
              = Inr (june 1 0 0, False)"
    by (simp add: resolve_end_def parse_date_june_1)
  have r2: "resolve_end (cli ''2024-06-01'' [] ''2024-06-01'') (june 1 0 0) False
              = Inr (june 1 0 0, False)"
    by (simp add: resolve_end_def parse_date_june_1)
  have m1: "main home_store (cli ''2024-06-01'' [] ''2024-06-02'') = Exit EndBeforeStart"
    using end_before_start_iff
         [of home_store "cli ''2024-06-01'' [] ''2024-06-02''" _ "june 2 0 0" False
             "june 1 0 0" False]
    by (simp add: resolve_home parse_date_june_2 r1 less)
  have m2: "main home_store (cli ''2024-06-01'' [] ''2024-06-01'')
     = Create_event \<lparr>cal_title = ''Home'', cal_type = 0\<rparr> True (june 1 0 0) (june 1 0 0) ''Dentist''"
    using end_before_start_iff
         [of home_store "cli ''2024-06-01'' [] ''2024-06-01''" _ "june 1 0 0" False
             "june 1 0 0" False]
    by (simp add: resolve_home parse_date_june_1 r2)
  from end_before_start_iff
         [of home_store "cli ''2024-06-01'' [] ''2024-06-01''" _ _ _ _ _ _ True
             "june 1 0 0" "june 1 0 0" "''Dentist''"] m2
  have "datetime_le (june 1 0 0) (june 1 0 0)" by simp
  with m1 m2 less show ?thesis by simp
qed

text \<open>
  Claim C7. Whenever \<^verbatim>\<open>create_event\<close> is called, its start is the parsed start string and
  its all-day flag is the negation of the flag that \<open>parse_date\<close> returned for the start:
  the event is all-day exactly when the start had no time of day.
\<close>

theorem all_day_flag:
  "main store a = Create_event cal ad s e t \<Longrightarrow> parse_date (date a) = Inr (s, \<not> ad)"
  using main_Create_inv [of store a cal ad s e t] by blast

theorem all_day_flag_witness:
  "main home_store (cli [] ''1h'' ''2024-06-01T09:00'')
     = Create_event \<lparr>cal_title = ''Home'', cal_type = 0\<rparr> False (june 1 9 0) (june 1 10 0) ''Dentist'' \<and>
   parse_date (date (cli [] ''1h'' ''2024-06-01T09:00'')) = Inr (june 1 9 0, \<not> False)"
proof -
  have m: "main home_store (cli [] ''1h'' ''2024-06-01T09:00'')
     = Create_event \<lparr>cal_title = ''Home'', cal_type = 0\<rparr> False (june 1 9 0) (june 1 10 0) ''Dentist''"
  proof -
    have r: "resolve_end (cli [] ''1h'' ''2024-06-01T09:00'') (june 1 9 0) True
               = Inr (june 1 10 0, True)"
      by (simp add: resolve_end_def parse_duration_1h june_1_plus_1h)
    have "\<not> datetime_less (june 1 10 0) (june 1 9 0)"
      by (simp add: datetime_less_def june_def)
    with r show ?thesis
      by (simp add: main_reached [OF _ _ r] resolve_home parse_date_june_1_T)
  qed
  from all_day_flag [OF m] m show ?thesis by simp
qed

section \<open>Stripping\<close>

lemma last_dropWhile: "dropWhile P xs \<noteq> [] \<Longrightarrow> last (dropWhile P xs) = last xs"
proof -
  assume ne: "dropWhile P xs \<noteq> []"
  have "last xs = last (takeWhile P xs @ dropWhile P xs)" by simp
  also from ne have "\<dots> = last (dropWhile P xs)" by (rule last_appendR)
  finally show ?thesis by simp
qed

lemma dropWhile_none: "xs = [] \<or> \<not> P (hd xs) \<Longrightarrow> dropWhile P xs = xs"
  by (cases xs) auto

lemma strip_no_leading: "strip s = [] \<or> \<not> isspace (hd (strip s))"
proof (cases "strip s = []")
  case True
  then show ?thesis by simp
next
  case False
  let ?u = "dropWhile isspace s"
  let ?v = "dropWhile isspace (rev ?u)"
  from False have v: "?v \<noteq> []" by (simp add: strip_def)
  have u: "?u \<noteq> []"
  proof
    assume e: "?u = []"
    have "?v = []" unfolding e by simp
    with v show False ..
  qed
  have "hd (strip s) = last ?v" using v by (simp add: strip_def hd_rev)
  also have "\<dots> = last (rev ?u)" using v by (rule last_dropWhile)
  also have "\<dots> = hd ?u" using u by (simp add: last_rev)
  finally have "hd (strip s) = hd ?u" .
  moreover from u have "\<not> isspace (hd ?u)" by (rule hd_dropWhile)
  ultimately show ?thesis by simp
qed

lemma strip_idem: "strip (strip s) = strip s"
proof -
  have "dropWhile isspace (strip s) = strip s"
    using strip_no_leading [of s] by (rule dropWhile_none)
  then show ?thesis
    unfolding strip_def [of "strip s"] by (simp add: strip_def)
qed

lemma strip_surrounded:
  assumes l: "\<forall>c \<in> set l. isspace c" and r: "\<forall>c \<in> set r. isspace c"
  shows "strip (l @ s @ r) = strip s"
proof (cases "\<forall>c \<in> set s. isspace c")
  case True
  with l r have "\<forall>c \<in> set (l @ s @ r). isspace c" by auto
  then have a: "dropWhile isspace (l @ s @ r) = []" by (simp only: dropWhile_eq_Nil_conv)
  from True have b: "dropWhile isspace s = []" by (simp only: dropWhile_eq_Nil_conv)
  show ?thesis unfolding strip_def a b ..
next
  case False
  from l have "dropWhile isspace (l @ s @ r) = dropWhile isspace (s @ r)"
    by simp
  also from False have "\<dots> = dropWhile isspace s @ r"
    by auto
  finally have a: "rev (dropWhile isspace (l @ s @ r)) = rev r @ rev (dropWhile isspace s)"
    by simp
  have b: "dropWhile isspace (rev r @ rev (dropWhile isspace s))
             = dropWhile isspace (rev (dropWhile isspace s))"
  proof (rule dropWhile_append2)
    fix c assume "c \<in> set (rev r)"
    with r show "isspace c" by simp
  qed
  show ?thesis unfolding strip_def a b ..
qed

lemma parse_date_strip_cong: "strip s = strip t \<Longrightarrow> parse_date s = parse_date t"
  by (simp add: parse_date_def)

text \<open>
  Claim C10. \<open>parse_date\<close> gives the same result, value or error, on a string and on the
  string stripped of leading and trailing white space; white space put around a string
  changes nothing, so it never selects the format with a space.
\<close>

theorem parse_date_strip_invariant:
  "parse_date s = parse_date (strip s) \<and>
   ((\<forall>c \<in> set l. isspace c) \<and> (\<forall>c \<in> set r. isspace c) \<longrightarrow>
      parse_date (l @ s @ r) = parse_date s)"
  by (auto intro!: parse_date_strip_cong simp: strip_idem strip_surrounded)

theorem parse_date_strip_invariant_witness:
  "parse_date ''  2024-06-01 '' = Inr (june 1 0 0, False) \<and>
   parse_date (strip ''  2024-06-01 '') = Inr (june 1 0 0, False)"
proof -
  have "\<forall>c \<in> set ''  ''. isspace c" and "\<forall>c \<in> set '' ''. isspace c"
    by (simp_all add: isspace_def)
  with parse_date_strip_invariant [of "''2024-06-01''" "''  ''" "'' ''"]
       parse_date_strip_invariant [of "''  2024-06-01 ''"]
  show ?thesis by (simp add: parse_date_june_1)
qed

section \<open>The sign of a duration\<close>

lemma set_trimmed: "set (rev (dropWhile P (rev (dropWhile Q s)))) \<subseteq> set s"
  by (auto dest!: set_dropWhileD)

lemma py_int_nonneg:
  assumes "py_int s = Some n" and "CHR ''-'' \<notin> set s"
  shows "0 \<le> n"
proof -
  let ?t = "rev (dropWhile int_isspace (rev (dropWhile int_isspace s)))"
  from assms(2) set_trimmed [of int_isspace int_isspace s] have "CHR ''-'' \<notin> set ?t" by blast
  with assms(1) show ?thesis
    unfolding py_int_def Let_def by (cases ?t) (auto split: if_splits)
qed

lemma split_on_subset_all: "\<forall>p \<in> set (split_on sep s). set p \<subseteq> set s"
  by (induction s) (auto split: list.splits)

lemma split_on_subset: "p \<in> set (split_on sep s) \<Longrightarrow> set p \<subseteq> set s"
  using split_on_subset_all [of sep s] by blast

lemma strip_subset: "set (strip s) \<subseteq> set s"
  unfolding strip_def by (rule set_trimmed)

lemma new_timedelta_nonneg:
  "new_timedelta h m = Inr d \<Longrightarrow> 0 \<le> h \<Longrightarrow> 0 \<le> m \<Longrightarrow> non_negative d"
  by (auto simp: new_timedelta_def non_negative_def Let_def pos_imp_zdiv_nonneg_iff
      split: if_splits)

text \<open>
  Claim C8, as stated, fails: \<^verbatim>\<open>int\<close> accepts a sign, so \<^verbatim>\<open>-5m\<close> is accepted and gives a
  span of minus five minutes (normalised: minus one day plus 86100 seconds).
\<close>

theorem parse_duration_negative:
  "parse_duration ''-5m'' = Inr \<lparr>days = - 1, seconds = 86100\<rparr> \<and>
   \<not> non_negative \<lparr>days = - 1, seconds = 86100\<rparr>"
  by (simp add: parse_duration_def string_eval new_timedelta_def non_negative_def)

text \<open>
  Claim C8, amended. Every duration that \<open>parse_duration\<close> returns for a string without a
  minus sign is a span that is not negative.
\<close>

theorem parse_duration_non_negative:
  assumes ok: "parse_duration s = Inr d" and nominus: "CHR ''-'' \<notin> set s"
  shows "non_negative d"
proof -
  let ?t = "strip s"
  from nominus strip_subset [of s] have t: "CHR ''-'' \<notin> set ?t" by blast
  show ?thesis
  proof (cases "CHR '':'' \<in> set ?t")
    case True
    with ok obtain hs ms h m where sp: "split_on CHR '':'' ?t = [hs, ms]"
      and h: "py_int hs = Some h" and m: "py_int ms = Some m"
      and d: "new_timedelta h m = Inr d"
      unfolding parse_duration_def Let_def
      by (auto split: list.splits option.splits)
    from sp have "hs \<in> set (split_on CHR '':'' ?t)" "ms \<in> set (split_on CHR '':'' ?t)"
      by simp_all
    then have "set hs \<subseteq> set ?t" "set ms \<subseteq> set ?t" by (auto dest: split_on_subset)
    with t have "CHR ''-'' \<notin> set hs" "CHR ''-'' \<notin> set ms" by blast+
    with h m have "0 \<le> h" "0 \<le> m" by (auto dest: py_int_nonneg)
    with d show ?thesis by (rule new_timedelta_nonneg)
  next
    case False
    from t have b: "CHR ''-'' \<notin> set (butlast ?t)" by (auto dest: in_set_butlastD)
    from ok False obtain n where n: "py_int (butlast ?t) = Some n"
      and d: "new_timedelta 0 n = Inr d \<or> new_timedelta n 0 = Inr d"
      unfolding parse_duration_def Let_def
      by (auto split: if_splits option.splits)
    from n b have "0 \<le> n" by (rule py_int_nonneg)
    with d show ?thesis by (auto dest: new_timedelta_nonneg)
  qed
qed

theorem parse_duration_non_negative_witness:
  "parse_duration ''1h'' = Inr \<lparr>days = 0, seconds = 3600\<rparr> \<and>
   non_negative \<lparr>days = 0, seconds = 3600\<rparr>"
  using parse_duration_non_negative [of "''1h''" "\<lparr>days = 0, seconds = 3600\<rparr>"]
  by (simp add: parse_duration_1h)

section \<open>A duration of white space only\<close>

text \<open>
  Claim C4. A duration string of white space only matches none of the three shapes, yet
  it does not fail with the error that the main program reports as a bad duration: the
  stripped string is empty, \<^verbatim>\<open>duration_str[-1]\<close> raises \<^verbatim>\<open>IndexError\<close>, and the run ends with
  that exception uncaught. (A duration too long for a \<^verbatim>\<open>timedelta\<close> escapes the handler
  too, as \<^verbatim>\<open>OverflowError\<close>.)
\<close>

theorem parse_duration_blank:
  "parse_duration '' '' = Inl IndexError \<and>
   main home_store (cli [] '' '' ''2024-06-01T09:00'') = Uncaught IndexError \<and>
   parse_duration ''24000000000h'' = Inl OverflowError"
proof -
  have p: "parse_duration '' '' = Inl IndexError"
    by (simp add: parse_duration_def strip_def isspace_def)
  then have m: "main home_store (cli [] '' '' ''2024-06-01T09:00'') = Uncaught IndexError"
    by (simp add: main_def resolve_home parse_date_june_1_T resolve_end_def)
  have "parse_duration ''24000000000h'' = Inl OverflowError"
    by (simp add: parse_duration_def string_eval new_timedelta_def)
  with p m show ?thesis by simp
qed

section \<open>The format that \<open>parse_date\<close> selects\<close>

lemma strptime_error: "strptime data_string format = Inl e \<Longrightarrow> e = ValueError"
  by (auto simp: strptime_def split: list.splits prod.splits if_splits option.splits)

lemma strptime_no_match:
  "\<not> matches_format format data_string \<Longrightarrow> strptime data_string format = Inl ValueError"
  by (auto simp: strptime_def matches_format_def split: list.splits prod.splits)

lemma parse_date_T:
  "CHR ''T'' \<in> set (strip s) \<Longrightarrow>
     parse_date s =
       (case strptime (strip s) ''%Y-%m-%dT%H:%M'' of Inl e \<Rightarrow> Inl e | Inr dt \<Rightarrow> Inr (dt, True))"
  by (simp add: parse_date_def)

lemma parse_date_space:
  "CHR ''T'' \<notin> set (strip s) \<Longrightarrow> CHR '' '' \<in> set (strip s) \<Longrightarrow>
     parse_date s =
       (case strptime (strip s) ''%Y-%m-%d %H:%M'' of Inl e \<Rightarrow> Inl e | Inr dt \<Rightarrow> Inr (dt, True))"
  by (simp add: parse_date_def)

lemma parse_date_plain:
  "CHR ''T'' \<notin> set (strip s) \<Longrightarrow> CHR '' '' \<notin> set (strip s) \<Longrightarrow>
     parse_date s =
       (case strptime (strip s) ''%Y-%m-%d'' of Inl e \<Rightarrow> Inl e | Inr dt \<Rightarrow> Inr (dt, False))"
  by (simp add: parse_date_def)

lemma parse_date_error: "parse_date s = Inl e \<Longrightarrow> e = ValueError"
  by (auto simp: parse_date_def Let_def split: if_splits sum.splits dest: strptime_error)

text \<open>
  Claim C3. \<open>parse_date\<close> selects its format from the stripped string alone. With a
  \<^verbatim>\<open>T\<close> in it, the result is that of \<^verbatim>\<open>strptime\<close> with \<^verbatim>\<open>%Y-%m-%dT%H:%M\<close>, with a time of
  day; else with a space in it, that of \<^verbatim>\<open>%Y-%m-%d %H:%M\<close>, with a time of day; else
  that of \<^verbatim>\<open>%Y-%m-%d\<close>, without one. In each case a string that does not match the
  pattern of that format fails with \<^verbatim>\<open>ValueError\<close>, whatever the other formats would do
  with it, and \<open>parse_date\<close> fails with no other error.
\<close>

theorem parse_date_format_selection:
  "(CHR ''T'' \<in> set (strip s) \<longrightarrow>
      parse_date s =
        (case strptime (strip s) ''%Y-%m-%dT%H:%M'' of
           Inl e \<Rightarrow> Inl e | Inr dt \<Rightarrow> Inr (dt, True)) \<and>
      (\<not> matches_format ''%Y-%m-%dT%H:%M'' (strip s) \<longrightarrow> parse_date s = Inl ValueError)) \<and>
   (CHR ''T'' \<notin> set (strip s) \<and> CHR '' '' \<in> set (strip s) \<longrightarrow>
      parse_date s =
        (case strptime (strip s) ''%Y-%m-%d %H:%M'' of
           Inl e \<Rightarrow> Inl e | Inr dt \<Rightarrow> Inr (dt, True)) \<and>
      (\<not> matches_format ''%Y-%m-%d %H:%M'' (strip s) \<longrightarrow> parse_date s = Inl ValueError)) \<and>
   (CHR ''T'' \<notin> set (strip s) \<and> CHR '' '' \<notin> set (strip s) \<longrightarrow>
      parse_date s =
        (case strptime (strip s) ''%Y-%m-%d'' of
           Inl e \<Rightarrow> Inl e | Inr dt \<Rightarrow> Inr (dt, False)) \<and>
      (\<not> matches_format ''%Y-%m-%d'' (strip s) \<longrightarrow> parse_date s = Inl ValueError)) \<and>
   (parse_date s = Inl e \<longrightarrow> e = ValueError)"
proof (intro conjI impI)
  assume "parse_date s = Inl e"
  then show "e = ValueError" by (rule parse_date_error)
qed (simp_all add: parse_date_T parse_date_space parse_date_plain strptime_no_match)

text \<open>
  The string \<^verbatim>\<open>2024-06- 5\<close> matches the pattern of \<^verbatim>\<open>%Y-%m-%d\<close> (a day may be written with
  a space before one digit) but holds a space, so the format with a space is selected and
  the string is refused; \<^verbatim>\<open>2024-06-01t09:00\<close> would match the pattern with \<^verbatim>\<open>T\<close> (letters
  match without case) but holds no \<^verbatim>\<open>T\<close>, so the date-only format is selected and the
  string is refused.
\<close>

theorem parse_date_format_selection_witness:
  "parse_date ''2024-06-01T09:00'' = Inr (june 1 9 0, True) \<and>
   parse_date ''2024-06-01 09:00'' = Inr (june 1 9 0, True) \<and>
   parse_date ''2024-06-01'' = Inr (june 1 0 0, False) \<and>
   matches_format ''%Y-%m-%d'' ''2024-06- 5'' \<and>
   parse_date ''2024-06- 5'' = Inl ValueError \<and>
   matches_format ''%Y-%m-%dT%H:%M'' ''2024-06-01t09:00'' \<and>
   parse_date ''2024-06-01t09:00'' = Inl ValueError"
proof -
  have s1: "strip ''2024-06-01T09:00'' = ''2024-06-01T09:00''"
    and s2: "strip ''2024-06-01 09:00'' = ''2024-06-01 09:00''"
    and s3: "strip ''2024-06-01'' = ''2024-06-01''"
    and s4: "strip ''2024-06- 5'' = ''2024-06- 5''"
    and s5: "strip ''2024-06-01t09:00'' = ''2024-06-01t09:00''"
    by (simp_all add: string_eval)
  have e1: "strptime ''2024-06-01T09:00'' ''%Y-%m-%dT%H:%M'' = Inr (june 1 9 0)"
    and e2: "strptime ''2024-06-01 09:00'' ''%Y-%m-%d %H:%M'' = Inr (june 1 9 0)"
    and e3: "strptime ''2024-06-01'' ''%Y-%m-%d'' = Inr (june 1 0 0)"
    by (simp_all add: strptime_eval string_eval june_def)
  have m4: "matches_format ''%Y-%m-%d'' ''2024-06- 5''"
    and n4: "\<not> matches_format ''%Y-%m-%d %H:%M'' ''2024-06- 5''"
    and m5: "matches_format ''%Y-%m-%dT%H:%M'' ''2024-06-01t09:00''"
    and n5: "\<not> matches_format ''%Y-%m-%d'' ''2024-06-01t09:00''"
    by (simp_all add: matches_format_def strptime_eval string_eval)
  from parse_date_format_selection [of "''2024-06-01T09:00''"] s1 e1
  have p1: "parse_date ''2024-06-01T09:00'' = Inr (june 1 9 0, True)" by simp
  from parse_date_format_selection [of "''2024-06-01 09:00''"] s2 e2
  have p2: "parse_date ''2024-06-01 09:00'' = Inr (june 1 9 0, True)" by simp
  from parse_date_format_selection [of "''2024-06-01''"] s3 e3
  have p3: "parse_date ''2024-06-01'' = Inr (june 1 0 0, False)" by simp
  have c4: "CHR ''T'' \<notin> set ''2024-06- 5'' \<and> CHR '' '' \<in> set ''2024-06- 5''"
    and c5: "CHR ''T'' \<notin> set ''2024-06-01t09:00'' \<and> CHR '' '' \<notin> set ''2024-06-01t09:00''"
    by simp_all
  have p4: "parse_date ''2024-06- 5'' = Inl ValueError"
    using parse_date_format_selection [of "''2024-06- 5''" ValueError] c4 n4
    unfolding s4 by blast
  have p5: "parse_date ''2024-06-01t09:00'' = Inl ValueError"
    using parse_date_format_selection [of "''2024-06-01t09:00''" ValueError] c5 n5
    unfolding s5 by blast
  from p1 p2 p3 m4 p4 m5 p5 show ?thesis by simp
qed

section \<open>Dates written \<^verbatim>\<open>YYYY-MM-DD\<close>\<close>

lemma digit_char_cases:
  "k < 10 \<Longrightarrow> k = 0 \<or> k = 1 \<or> k = 2 \<or> k = 3 \<or> k = 4 \<or> k = 5 \<or> k = 6 \<or> k = 7 \<or> k = 8 \<or> k = (9::nat)"
  by arith

lemma digit_char_props:
  assumes "k < 10"
  shows "isdigit (digit_char k)" and "\<not> isspace (digit_char k)"
    and "\<not> int_isspace (digit_char k)" and "digit_char k \<noteq> CHR ''-''"
    and "digit_char k \<noteq> CHR ''+''" and "digit_char k \<noteq> CHR ''T''"
    and "digit_char k \<noteq> CHR '' ''" and "digit_value (digit_char k) = k"
    and "digit_char k \<in> set ''0123456789''"
    and "CHR ''T'' \<noteq> digit_char k" and "CHR '' '' \<noteq> digit_char k"
  using digit_char_cases [OF assms]
  by (auto simp: digit_char_def isdigit_def isspace_def int_isspace_def digit_value_def)

lemma iso_digits:
  fixes y m d :: nat
  assumes "y \<le> 9999" and "m \<le> 12" and "d \<le> 31"
  shows "y div 1000 < 10" and "y div 100 mod 10 < 10" and "y div 10 mod 10 < 10"
    and "y mod 10 < 10" and "m div 10 < 10" and "m mod 10 < 10" and "d div 10 < 10"
    and "d mod 10 < 10"
  using assms by simp_all

lemma month_cases:
  "1 \<le> m \<Longrightarrow> m \<le> 12 \<Longrightarrow>
     m = 1 \<or> m = 2 \<or> m = 3 \<or> m = 4 \<or> m = 5 \<or> m = 6 \<or> m = 7 \<or> m = 8 \<or> m = 9 \<or> m = 10
       \<or> m = 11 \<or> m = (12::nat)"
  by arith

lemma month_cases_int:
  "1 \<le> m \<Longrightarrow> m \<le> 12 \<Longrightarrow>
     m = 1 \<or> m = 2 \<or> m = 3 \<or> m = 4 \<or> m = 5 \<or> m = 6 \<or> m = 7 \<or> m = 8 \<or> m = 9 \<or> m = 10
       \<or> m = 11 \<or> m = (12::int)"
  by arith

lemma day_cases:
  "1 \<le> d \<Longrightarrow> d \<le> 31 \<Longrightarrow>
     d = 1 \<or> d = 2 \<or> d = 3 \<or> d = 4 \<or> d = 5 \<or> d = 6 \<or> d = 7 \<or> d = 8 \<or> d = 9 \<or> d = 10
       \<or> d = 11 \<or> d = 12 \<or> d = 13 \<or> d = 14 \<or> d = 15 \<or> d = 16 \<or> d = 17 \<or> d = 18 \<or> d = 19
       \<or> d = 20 \<or> d = 21 \<or> d = 22 \<or> d = 23 \<or> d = 24 \<or> d = 25 \<or> d = 26 \<or> d = 27 \<or> d = 28
       \<or> d = 29 \<or> d = 30 \<or> d = (31::nat)"
  by arith

lemma py_int_two_digits:
  assumes "a < 10" and "b < 10"
  shows "py_int [digit_char a, digit_char b] = Some (int (10 * a + b))"
  using assms by (simp add: py_int_def int_literal_def digit_char_props)

lemma py_int_four_digits:
  assumes "a < 10" and "b < 10" and "c < 10" and "e < 10"
  shows "py_int [digit_char a, digit_char b, digit_char c, digit_char e]
           = Some (int (1000 * a + 100 * b + 10 * c + e))"
  using assms by (simp add: py_int_def int_literal_def digit_char_props)

lemma directive_Y_digits:
  assumes "a < 10" and "b < 10" and "c < 10" and "e < 10"
  shows "directive CHR ''Y'' (digit_char a # digit_char b # digit_char c # digit_char e # r)
           = [([digit_char a, digit_char b, digit_char c, digit_char e], r)]"
  using assms
  by (simp add: directive_def directive_alts_def List.map_filter_def digit_char_props
      del: list.set)

lemma directive_m_two_digits:
  assumes "1 \<le> m" and "m \<le> 12"
  shows "\<exists>alts. directive CHR ''m'' (digit_char (m div 10) # digit_char (m mod 10) # r)
           = ([digit_char (m div 10), digit_char (m mod 10)], r) # alts"
  using month_cases [OF assms]
  by (elim disjE)
     (simp_all add: directive_def directive_alts_def List.map_filter_def digit_char_def)

lemma directive_d_two_digits:
  assumes "1 \<le> d" and "d \<le> 31"
  shows "\<exists>alts. directive CHR ''d'' (digit_char (d div 10) # digit_char (d mod 10) # r)
           = ([digit_char (d div 10), digit_char (d mod 10)], r) # alts"
  using day_cases [OF assms]
  by (elim disjE)
     (simp_all add: directive_def directive_alts_def List.map_filter_def digit_char_def)

lemma days_in_month_le_31: "1 \<le> m \<Longrightarrow> m \<le> 12 \<Longrightarrow> days_in_month y m \<le> 31"
  using month_cases_int [of m]
  by (auto simp: days_in_month_def DAYS_IN_MONTH_def)

lemma compile_date_format:
  "compile_format ''%Y-%m-%d''
     = [Directive CHR ''Y'', Literal CHR ''-'', Directive CHR ''m'', Literal CHR ''-'',
        Directive CHR ''d'']"
  by (simp add: isspace_def)

lemma four_digits_value:
  "1000 * (y div 1000) + 100 * (y div 100 mod 10) + 10 * (y div 10 mod 10) + y mod 10 = (y::nat)"
proof -
  have a: "y = 10 * (y div 10) + y mod 10" by simp
  have b: "y div 10 = 10 * (y div 10 div 10) + y div 10 mod 10" by simp
  have c: "y div 100 = 10 * (y div 100 div 10) + y div 100 mod 10" by simp
  have d: "y div 10 div 10 = y div 100" "y div 100 div 10 = y div 1000"
    by (simp_all add: div_mult2_eq [symmetric])
  from a b c d show ?thesis by linarith
qed

lemma two_digits_value: "10 * (n div 10) + n mod 10 = (n::nat)"
  by simp

lemma dash_not_space: "\<not> isspace CHR ''-''"
  by (simp add: isspace_def)

lemma strip_iso_date:
  assumes "y \<le> 9999" and "m \<le> 12" and "d \<le> 31"
  shows "strip (iso_date y m d) = iso_date y m d"
  using iso_digits [OF assms]
  by (simp add: strip_def iso_date_def digit_char_props dash_not_space)

lemma iso_date_plain:
  assumes "y \<le> 9999" and "m \<le> 12" and "d \<le> 31"
  shows "CHR ''T'' \<notin> set (iso_date y m d)" and "CHR '' '' \<notin> set (iso_date y m d)"
  using iso_digits [OF assms] by (simp_all add: iso_date_def digit_char_props)

lemma re_match_iso_date:
  assumes y: "y \<le> 9999" and m: "1 \<le> m" "m \<le> 12" and d: "1 \<le> d" "d \<le> 31"
  shows "\<exists>t. re_match (compile_format ''%Y-%m-%d'') (iso_date y m d)
           = ([(CHR ''Y'', [digit_char (y div 1000), digit_char (y div 100 mod 10),
                            digit_char (y div 10 mod 10), digit_char (y mod 10)]),
               (CHR ''m'', [digit_char (m div 10), digit_char (m mod 10)]),
               (CHR ''d'', [digit_char (d div 10), digit_char (d mod 10)])], []) # t"
proof -
  note yd = iso_digits(1-4) [OF y m(2) d(2)]
  obtain ma where ma: "directive CHR ''m''
      (digit_char (m div 10) # digit_char (m mod 10) #
         [CHR ''-'', digit_char (d div 10), digit_char (d mod 10)])
      = ([digit_char (m div 10), digit_char (m mod 10)],
         [CHR ''-'', digit_char (d div 10), digit_char (d mod 10)]) # ma"
    using directive_m_two_digits [OF m] by blast
  obtain da where da: "directive CHR ''d'' (digit_char (d div 10) # digit_char (d mod 10) # [])
      = ([digit_char (d div 10), digit_char (d mod 10)], []) # da"
    using directive_d_two_digits [OF d] by blast
  show ?thesis
    unfolding compile_date_format iso_date_def
    by (simp add: directive_Y_digits [OF yd] ma da)
qed

lemma parse_date_iso_date:
  assumes y: "1 \<le> y" "y \<le> 9999" and m: "1 \<le> m" "m \<le> 12"
    and d: "1 \<le> d" "int d \<le> days_in_month (int y) (int m)"
  shows "parse_date (iso_date y m d)
           = Inr (\<lparr>year = int y, month = int m, day = int d, hour = 0, minute = 0, second = 0\<rparr>,
                  False)"
proof -
  from m have "days_in_month (int y) (int m) \<le> 31" by (simp add: days_in_month_le_31)
  with d have d31: "d \<le> 31" by simp
  note dg = iso_digits [OF y(2) m(2) d31]
  obtain t where t: "re_match (compile_format ''%Y-%m-%d'') (iso_date y m d)
           = ([(CHR ''Y'', [digit_char (y div 1000), digit_char (y div 100 mod 10),
                            digit_char (y div 10 mod 10), digit_char (y mod 10)]),
               (CHR ''m'', [digit_char (m div 10), digit_char (m mod 10)]),
               (CHR ''d'', [digit_char (d div 10), digit_char (d mod 10)])], []) # t"
    using re_match_iso_date [OF y(2) m d(1) d31] by blast
  have gy: "group_int
      [(CHR ''Y'', [digit_char (y div 1000), digit_char (y div 100 mod 10),
                    digit_char (y div 10 mod 10), digit_char (y mod 10)]),
       (CHR ''m'', [digit_char (m div 10), digit_char (m mod 10)]),
       (CHR ''d'', [digit_char (d div 10), digit_char (d mod 10)])] CHR ''Y'' 1900 = Some (int y)"
    by (simp add: group_int_def py_int_four_digits [OF dg(1-4)] four_digits_value
        del: of_nat_add of_nat_mult)
  have gm: "group_int
      [(CHR ''Y'', [digit_char (y div 1000), digit_char (y div 100 mod 10),
                    digit_char (y div 10 mod 10), digit_char (y mod 10)]),
       (CHR ''m'', [digit_char (m div 10), digit_char (m mod 10)]),
       (CHR ''d'', [digit_char (d div 10), digit_char (d mod 10)])] CHR ''m'' 1 = Some (int m)"
    by (simp add: group_int_def py_int_two_digits [OF dg(5,6)] two_digits_value
        del: of_nat_add of_nat_mult)
  have gd: "group_int
      [(CHR ''Y'', [digit_char (y div 1000), digit_char (y div 100 mod 10),
                    digit_char (y div 10 mod 10), digit_char (y mod 10)]),
       (CHR ''m'', [digit_char (m div 10), digit_char (m mod 10)]),
       (CHR ''d'', [digit_char (d div 10), digit_char (d mod 10)])] CHR ''d'' 1 = Some (int d)"
    by (simp add: group_int_def py_int_two_digits [OF dg(7,8)] two_digits_value
        del: of_nat_add of_nat_mult)
  have gh: "group_int
      [(CHR ''Y'', [digit_char (y div 1000), digit_char (y div 100 mod 10),
                    digit_char (y div 10 mod 10), digit_char (y mod 10)]),
       (CHR ''m'', [digit_char (m div 10), digit_char (m mod 10)]),
       (CHR ''d'', [digit_char (d div 10), digit_char (d mod 10)])] CHR ''H'' 0 = Some 0"
    and gmi: "group_int
      [(CHR ''Y'', [digit_char (y div 1000), digit_char (y div 100 mod 10),
                    digit_char (y div 10 mod 10), digit_char (y mod 10)]),
       (CHR ''m'', [digit_char (m div 10), digit_char (m mod 10)]),
       (CHR ''d'', [digit_char (d div 10), digit_char (d mod 10)])] CHR ''M'' 0 = Some 0"
    by (simp_all add: group_int_def)
  have "strptime (iso_date y m d) ''%Y-%m-%d''
          = Inr \<lparr>year = int y, month = int m, day = int d, hour = 0, minute = 0, second = 0\<rparr>"
    unfolding strptime_def t using y m d by (simp add: gy gm gd gh gmi)
  with y(2) m(2) d31 show ?thesis
    by (simp add: parse_date_plain strip_iso_date iso_date_plain)
qed

lemma re_match_no_group:
  "(gs, r) \<in> set (re_match items s) \<Longrightarrow> Directive c \<notin> set items \<Longrightarrow> map_of gs c = None"
proof (induction items arbitrary: s gs r)
  case Nil
  then show ?case by simp
next
  case (Cons x items)
  show ?case
  proof (cases x)
    case (Directive c')
    with Cons.prems obtain g r' gs' where "gs = (c', g) # gs'"
      and "(gs', r) \<in> set (re_match items r')"
      by auto
    with Cons.IH [of gs' r r'] Cons.prems(2) Directive show ?thesis by auto
  next
    case Whitespace
    with Cons.prems obtain k where "(gs, r) \<in> set (re_match items (drop k s))" by auto
    with Cons.IH [of gs r "drop k s"] Cons.prems(2) show ?thesis by simp
  next
    case (Literal l)
    with Cons.prems obtain xs where "(gs, r) \<in> set (re_match items xs)"
      by (auto split: list.splits if_splits)
    with Cons.IH [of gs r xs] Cons.prems(2) show ?thesis by simp
  qed
qed

lemma strptime_date_midnight:
  assumes "strptime s ''%Y-%m-%d'' = Inr dt"
  shows "hour dt = 0 \<and> minute dt = 0 \<and> second dt = 0"
proof -
  from assms obtain gs t where t: "re_match (compile_format ''%Y-%m-%d'') s = (gs, []) # t"
    unfolding strptime_def by (auto split: list.splits if_splits)
  then have "(gs, []) \<in> set (re_match (compile_format ''%Y-%m-%d'') s)" by simp
  then have g: "map_of gs CHR ''H'' = None" "map_of gs CHR ''M'' = None"
    unfolding compile_date_format by (auto dest: re_match_no_group)
  from assms show ?thesis
    unfolding strptime_def t
    by (auto simp: group_int_def g split: option.splits if_splits)
qed

text \<open>
  Claim C9. For every date of the calendar (year 1 to 9999, month 1 to 12, day 1 to the
  length of the month), \<open>parse_date\<close> on its string \<^verbatim>\<open>YYYY-MM-DD\<close> returns that date at
  midnight, hour, minute and second all 0, with no time of day. More generally, whenever
  \<open>parse_date\<close> accepts a string that holds neither \<^verbatim>\<open>T\<close> nor a space, the result is at
  midnight and has no time of day.
\<close>

theorem parse_date_date_only_midnight:
  "(1 \<le> y \<and> y \<le> 9999 \<and> 1 \<le> m \<and> m \<le> 12 \<and> 1 \<le> d \<and> int d \<le> days_in_month (int y) (int m) \<longrightarrow>
      parse_date (iso_date y m d)
        = Inr (\<lparr>year = int y, month = int m, day = int d, hour = 0, minute = 0, second = 0\<rparr>,
               False)) \<and>
   (CHR ''T'' \<notin> set (strip s) \<and> CHR '' '' \<notin> set (strip s) \<and> parse_date s = Inr (dt, ht) \<longrightarrow>
      \<not> ht \<and> hour dt = 0 \<and> minute dt = 0 \<and> second dt = 0)"
proof (rule conjI; rule impI)
  assume "1 \<le> y \<and> y \<le> 9999 \<and> 1 \<le> m \<and> m \<le> 12 \<and> 1 \<le> d \<and> int d \<le> days_in_month (int y) (int m)"
  then show "parse_date (iso_date y m d)
        = Inr (\<lparr>year = int y, month = int m, day = int d, hour = 0, minute = 0, second = 0\<rparr>,
               False)"
    by (simp add: parse_date_iso_date)
next
  assume a: "CHR ''T'' \<notin> set (strip s) \<and> CHR '' '' \<notin> set (strip s) \<and> parse_date s = Inr (dt, ht)"
  then have "strptime (strip s) ''%Y-%m-%d'' = Inr dt \<and> \<not> ht"
    by (auto simp: parse_date_plain split: sum.splits)
  then show "\<not> ht \<and> hour dt = 0 \<and> minute dt = 0 \<and> second dt = 0"
    by (auto dest: strptime_date_midnight)
qed

theorem parse_date_date_only_midnight_witness:
  "iso_date 2024 2 29 = ''2024-02-29'' \<and>
   parse_date ''2024-02-29''
     = Inr (\<lparr>year = 2024, month = 2, day = 29, hour = 0, minute = 0, second = 0\<rparr>, False) \<and>
   parse_date ''2024-6-1'' = Inr (june 1 0 0, False) \<and>
   hour (june 1 0 0) = 0 \<and> minute (june 1 0 0) = 0 \<and> second (june 1 0 0) = 0"
proof -
  have i: "iso_date 2024 2 29 = ''2024-02-29''"
    by (simp add: iso_date_def digit_char_def)
  have dm: "days_in_month 2024 2 = 29"
    by (simp add: days_in_month_def is_leap_def)
  have p: "parse_date ''2024-6-1'' = Inr (june 1 0 0, False)"
    by (simp add: date_eval)
  have st: "strip ''2024-6-1'' = ''2024-6-1''"
    by (simp add: string_eval)
  from parse_date_date_only_midnight [of 2024 2 29] i dm
  have a: "parse_date ''2024-02-29''
     = Inr (\<lparr>year = 2024, month = 2, day = 29, hour = 0, minute = 0, second = 0\<rparr>, False)"
    by simp
  from parse_date_date_only_midnight [of _ _ _ "''2024-6-1''" "june 1 0 0" False] p st
  have b: "hour (june 1 0 0) = 0 \<and> minute (june 1 0 0) = 0 \<and> second (june 1 0 0) = 0"
    by simp
  from i a p b show ?thesis by simp
qed

end
